theory Spec2Isabelle
  imports Main "HOL-Library.AList"
begin

section \<open>Data model (types.ts)\<close>

text \<open>
  Dates are millisecond timestamps (\<open>Date.getTime()\<close>), optional fields are options.
  The handler and the pass-through \<open>options\<close> of a job configuration are never inspected
  by the manager: the handler shows up as the outcome handed to the execution wrapper, the
  options as part of what the runtime constructor receives.
\<close>

datatype JobStatus = Running | Paused | Stopped | Idle

record JobExecution =
  jobName :: string
  startTime :: int
  endTime :: "int option"
  duration :: "int option"
  success :: bool
  error :: "string option"

record JobConfig =
  name :: string
  description :: string
  pattern :: string
  timezone :: "string option"
  enabled :: "bool option"

record JobStats =
  totalRuns :: nat
  successfulRuns :: nat
  failedRuns :: nat
  averageDuration :: int

record JobInfo =
  info_name :: string
  info_description :: string
  info_pattern :: string
  info_timezone :: "string option"
  info_enabled :: bool
  status :: JobStatus
  nextRun :: "int option"
  previousRun :: "int option"
  currentRun :: "int option"
  isBusy :: bool
  info_executions :: "JobExecution list"
  stats :: JobStats

record ManagerStats =
  totalJobs :: nat
  runningJobs :: nat
  pausedJobs :: nat
  stoppedJobs :: nat
  totalExecutions :: nat
  successfulExecutions :: nat
  failedExecutions :: nat

section \<open>The job runtime handed out by the scheduling library\<close>

text \<open>
  Modelled from the spec: the \<open>Cron\<close> class comes from the croner package, which is not
  among the sources. The runtime is the record of section 3 (JobRuntime): the stopped,
  paused and busy flags and the next, previous and current fire times. \<open>stop\<close> is
  irreversible, \<open>pause\<close> and \<open>resume\<close> set and clear the paused flag, a runtime
  counts as running when it is neither paused nor stopped and has a next fire time, and a
  manual trigger starts an execution at once. What \<open>pause\<close> and \<open>resume\<close> return is
  the library's business (here: whether the runtime is still alive); the manager drops the
  first and passes the second on, and the results below leave that value as it is.
\<close>

record Cron =
  c_kill :: bool
  c_paused :: bool
  c_blocking :: bool
  c_next :: "int option"
  c_previous :: "int option"
  c_current :: "int option"

definition Cron_isStopped :: "Cron \<Rightarrow> bool" where
  "Cron_isStopped job = c_kill job"

definition Cron_isRunning :: "Cron \<Rightarrow> bool" where
  "Cron_isRunning job = (\<not> c_paused job \<and> \<not> c_kill job \<and> c_next job \<noteq> None)"

definition Cron_isBusy :: "Cron \<Rightarrow> bool" where
  "Cron_isBusy job = c_blocking job"

definition Cron_stop :: "Cron \<Rightarrow> Cron" where
  "Cron_stop job = job\<lparr>c_kill := True, c_next := None\<rparr>"

definition Cron_pause :: "Cron \<Rightarrow> bool \<times> Cron" where
  "Cron_pause job = (\<not> c_kill job, job\<lparr>c_paused := True\<rparr>)"

definition Cron_resume :: "Cron \<Rightarrow> bool \<times> Cron" where
  "Cron_resume job = (\<not> c_kill job, job\<lparr>c_paused := False\<rparr>)"

definition Cron_trigger :: "int \<Rightarrow> Cron \<Rightarrow> Cron" where
  "Cron_trigger now job = job\<lparr>c_blocking := True, c_current := Some now\<rparr>"


section \<open>CronManager (cron-manager.ts)\<close>

text \<open>
  The three \<open>Map\<close>s are association lists in insertion order: \<open>AList.update\<close> overwrites
  an existing key in place and appends a new one, as \<open>Map.set\<close> does, \<open>AList.delete\<close>
  is \<open>Map.delete\<close>, \<open>map_of\<close> is \<open>Map.get\<close>. \<open>maxExecutionLogs\<close> is the number of
  execution records to keep, a natural number; the negative, fractional and not-a-number
  values that a JavaScript \<open>number\<close> also admits are not counts and stay outside the model.
\<close>

record CronManager =
  jobs :: "(string \<times> Cron) list"
  configs :: "(string \<times> JobConfig) list"
  executions :: "(string \<times> JobExecution list) list"
  maxExecutionLogs :: nat

datatype error = DuplicateJob string | CronFailure string

definition new_CronManager :: "nat \<Rightarrow> CronManager" where
  "new_CronManager cap = \<lparr>jobs = [], configs = [], executions = [], maxExecutionLogs = cap\<rparr>"

text \<open>
  \<open>createJob\<close>: \<open>new Cron(pattern, options, wrapper)\<close> is the parameter \<open>new_Cron\<close>; it
  either throws (\<open>Inl\<close>, for instance on a malformed pattern) or yields the runtime, which
  is stored under the job's name.
\<close>

definition createJob ::
  "(JobConfig \<Rightarrow> string + Cron) \<Rightarrow> JobConfig \<Rightarrow> CronManager \<Rightarrow> error option \<times> CronManager" where
  "createJob new_Cron config m =
     (case new_Cron config of
        Inl msg \<Rightarrow> (Some (CronFailure msg), m)
      | Inr job \<Rightarrow> (None, m\<lparr>jobs := AList.update (name config) job (jobs m)\<rparr>))"

text \<open>
  \<open>register\<close> returns the error thrown, if any, and the manager as the call leaves it
  (a throw from \<open>createJob\<close> happens after the configuration was stored).
\<close>

definition register ::
  "(JobConfig \<Rightarrow> string + Cron) \<Rightarrow> JobConfig \<Rightarrow> CronManager \<Rightarrow> error option \<times> CronManager" where
  "register new_Cron config m =
     (if map_of (jobs m) (name config) \<noteq> None then (Some (DuplicateJob (name config)), m)
      else
        let m1 = m\<lparr>configs := AList.update (name config) config (configs m)\<rparr>;
            m2 = m1\<lparr>executions := AList.update (name config) [] (executions m1)\<rparr>
        in if enabled config \<noteq> Some False then createJob new_Cron config m2 else (None, m2))"

fun registerAll ::
  "(JobConfig \<Rightarrow> string + Cron) \<Rightarrow> JobConfig list \<Rightarrow> CronManager \<Rightarrow> error option \<times> CronManager" where
  "registerAll new_Cron [] m = (None, m)"
| "registerAll new_Cron (config # rest) m =
     (case register new_Cron config m of
        (Some e, m') \<Rightarrow> (Some e, m')
      | (None, m') \<Rightarrow> registerAll new_Cron rest m')"

text \<open>
  \<open>this.executions.get(name) || []\<close>, as \<open>recordExecution\<close> and \<open>getJob\<close> read a
  job's history.
\<close>

definition executions_of :: "CronManager \<Rightarrow> string \<Rightarrow> JobExecution list" where
  "executions_of m name' = (case map_of (executions m) name' of None \<Rightarrow> [] | Some es \<Rightarrow> es)"

text \<open>
  \<open>recordExecution\<close>: \<open>now\<close> is the clock read by \<open>startTime || new Date()\<close>. The new
  record goes to the front (\<open>unshift\<close>) and the array is cut to \<open>maxExecutionLogs\<close>
  when it is longer.
\<close>

definition new_execution ::
  "string \<Rightarrow> bool \<Rightarrow> string option \<Rightarrow> int option \<Rightarrow> int option \<Rightarrow> int option \<Rightarrow> int
     \<Rightarrow> JobExecution" where
  "new_execution jobName' success' error' startTime' endTime' duration' now =
     \<lparr>jobName = jobName',
      startTime = (case startTime' of Some t \<Rightarrow> t | None \<Rightarrow> now),
      endTime = endTime',
      duration = duration',
      success = success',
      error = error'\<rparr>"

definition recordExecution ::
  "string \<Rightarrow> bool \<Rightarrow> string option \<Rightarrow> int option \<Rightarrow> int option \<Rightarrow> int option \<Rightarrow> int
     \<Rightarrow> CronManager \<Rightarrow> CronManager" where
  "recordExecution jobName' success' error' startTime' endTime' duration' now m =
     (let execution =
            new_execution jobName' success' error' startTime' endTime' duration' now;
          unshifted = execution # executions_of m jobName';
          kept = (if length unshifted > maxExecutionLogs m
                  then take (maxExecutionLogs m) unshifted else unshifted)
      in m\<lparr>executions := AList.update jobName' kept (executions m)\<rparr>)"

text \<open>
  The execution wrapper that \<open>createJob\<close> hands to the runtime, in its two halves around
  \<open>await config.handler(self)\<close>. Before the handler it reads the clock and logs; it
  does not touch the manager. After the handler it reads the clock again and records the
  run, as a success when the handler returned and as a failure with the error's message
  when it threw.
\<close>

datatype outcome = Returned | Threw string

definition wrapper_start :: "int \<Rightarrow> CronManager \<Rightarrow> int \<times> CronManager" where
  "wrapper_start now m = (now, m)"

definition wrapper_finish :: "string \<Rightarrow> int \<Rightarrow> outcome \<Rightarrow> int \<Rightarrow> CronManager \<Rightarrow> CronManager" where
  "wrapper_finish jobName' startTime' result now m =
     (let endTime' = now;
          duration' = endTime' - startTime'
      in case result of
           Returned \<Rightarrow>
             recordExecution jobName' True None (Some startTime') (Some endTime') (Some duration') now m
         | Threw errorMessage \<Rightarrow>
             recordExecution jobName' False (Some errorMessage) (Some startTime') (Some endTime')
               (Some duration') now m)"

text \<open>
  The \<open>catch\<close> option given to the runtime: called by the library with an error that
  escaped the wrapper, it records a failure with no end time and no duration.
\<close>

definition catch_callback :: "string \<Rightarrow> string \<Rightarrow> int \<Rightarrow> CronManager \<Rightarrow> CronManager" where
  "catch_callback jobName' errorMessage now m =
     recordExecution jobName' False (Some errorMessage) None None None now m"

fun getJobStatus :: "Cron option \<Rightarrow> JobStatus" where
  "getJobStatus None = Stopped"
| "getJobStatus (Some job) =
     (if Cron_isStopped job then Stopped
      else if \<not> Cron_isRunning job then Paused
      else if Cron_isBusy job then Running
      else Idle)"

text \<open>
  \<open>Math.round(total / n)\<close> for \<open>n > 0\<close> rounds to the nearest integer, halves upwards:
  \<open>\<lfloor>total / n + 1/2\<rfloor>\<close>, which on integers is \<open>(2 * total + n) div (2 * n)\<close>.
  Numbers are integers here and their arithmetic is exact. The doubles of the source agree
  with that as long as the durations summed stay below \<open>2 ^ 52\<close> in absolute value;
  beyond, the source rounds its sums and quotients and this definition does not follow it,
  and nothing is stated about the mean there.
\<close>

definition round_div :: "int \<Rightarrow> nat \<Rightarrow> int" where
  "round_div totalDuration n = (2 * totalDuration + int n) div (2 * int n)"

definition getJob :: "CronManager \<Rightarrow> string \<Rightarrow> JobInfo option" where
  "getJob m name' =
     (case map_of (configs m) name' of
        None \<Rightarrow> None
      | Some config \<Rightarrow>
          let job = map_of (jobs m) name';
              execs = executions_of m name';
              successfulRuns' = length (filter success execs);
              failedRuns' = length (filter (\<lambda>e. \<not> success e) execs);
              totalDuration =
                foldl (\<lambda>acc e. acc + (case duration e of Some d \<Rightarrow> d | None \<Rightarrow> 0)) 0 execs;
              averageDuration' =
                (if length execs > 0 then round_div totalDuration (length execs) else 0)
          in Some \<lparr>info_name = name config,
                   info_description = description config,
                   info_pattern = pattern config,
                   info_timezone = timezone config,
                   info_enabled = (enabled config \<noteq> Some False),
                   status = getJobStatus job,
                   nextRun = (case job of None \<Rightarrow> None | Some j \<Rightarrow> c_next j),
                   previousRun = (case job of None \<Rightarrow> None | Some j \<Rightarrow> c_previous j),
                   currentRun = (case job of None \<Rightarrow> None | Some j \<Rightarrow> c_current j),
                   isBusy = (case job of None \<Rightarrow> False | Some j \<Rightarrow> Cron_isBusy j),
                   info_executions = take 10 execs,
                   stats = \<lparr>totalRuns = length execs,
                            successfulRuns = successfulRuns',
                            failedRuns = failedRuns',
                            averageDuration = averageDuration'\<rparr>\<rparr>)"

definition getAllJobs :: "CronManager \<Rightarrow> JobInfo list" where
  "getAllJobs m = List.map_filter (getJob m) (map fst (configs m))"

text \<open>
  The control operations return their boolean result and the manager with the runtime as
  the library call leaves it.
\<close>

definition trigger :: "string \<Rightarrow> int \<Rightarrow> CronManager \<Rightarrow> bool \<times> CronManager" where
  "trigger name' now m =
     (case map_of (jobs m) name' of
        None \<Rightarrow> (False, m)
      | Some job \<Rightarrow> (True, m\<lparr>jobs := AList.update name' (Cron_trigger now job) (jobs m)\<rparr>))"

definition pause :: "string \<Rightarrow> CronManager \<Rightarrow> bool \<times> CronManager" where
  "pause name' m =
     (case map_of (jobs m) name' of
        None \<Rightarrow> (False, m)
      | Some job \<Rightarrow> (True, m\<lparr>jobs := AList.update name' (snd (Cron_pause job)) (jobs m)\<rparr>))"

definition resume :: "string \<Rightarrow> CronManager \<Rightarrow> bool \<times> CronManager" where
  "resume name' m =
     (case map_of (jobs m) name' of
        None \<Rightarrow> (False, m)
      | Some job \<Rightarrow>
          let (result, job') = Cron_resume job
          in (result, m\<lparr>jobs := AList.update name' job' (jobs m)\<rparr>))"

definition stop :: "string \<Rightarrow> CronManager \<Rightarrow> bool \<times> CronManager" where
  "stop name' m =
     (case map_of (jobs m) name' of
        None \<Rightarrow> (False, m)
      | Some job \<Rightarrow>
          let m1 = m\<lparr>jobs := AList.update name' (Cron_stop job) (jobs m)\<rparr>
          in (True, m1\<lparr>jobs := AList.delete name' (jobs m1)\<rparr>))"

definition getStats :: "CronManager \<Rightarrow> ManagerStats" where
  "getStats m =
     (let js = getAllJobs m;
          allExecutions = concat (map snd (executions m))
      in \<lparr>totalJobs = length js,
          runningJobs = length (filter (\<lambda>j. status j = Running \<or> status j = Idle) js),
          pausedJobs = length (filter (\<lambda>j. status j = Paused) js),
          stoppedJobs = length (filter (\<lambda>j. status j = Stopped) js),
          totalExecutions = length allExecutions,
          successfulExecutions = length (filter success allExecutions),
          failedExecutions = length (filter (\<lambda>e. \<not> success e) allExecutions)\<rparr>)"

definition stopAll :: "CronManager \<Rightarrow> CronManager" where
  "stopAll m =
     (let m1 = m\<lparr>jobs := map (\<lambda>(name', job). (name', Cron_stop job)) (jobs m)\<rparr>
      in m1\<lparr>jobs := []\<rparr>)"

text \<open>
  A sequence of \<open>recordExecution\<close> calls for one job, oldest first; each call is the
  tuple of its arguments after the job name.
\<close>

type_synonym record_call = "bool \<times> string option \<times> int option \<times> int option \<times> int option \<times> int"

fun execution_of :: "string \<Rightarrow> record_call \<Rightarrow> JobExecution" where
  "execution_of jobName' (success', error', startTime', endTime', duration', now) =
     new_execution jobName' success' error' startTime' endTime' duration' now"

fun recordAll :: "string \<Rightarrow> record_call list \<Rightarrow> CronManager \<Rightarrow> CronManager" where
  "recordAll jobName' [] m = m"
| "recordAll jobName' ((success', error', startTime', endTime', duration', now) # rest) m =
     recordAll jobName' rest
       (recordExecution jobName' success' error' startTime' endTime' duration' now m)"

section \<open>Histories of the manager\<close>

text \<open>
  What can happen to a manager after its construction: the public operations, the two
  callbacks through which a run is recorded (only a job that was registered has a wrapper),
  and any change the library makes to a runtime held in the \<open>jobs\<close> map.
\<close>

datatype action =
    Register JobConfig
  | Trigger string int
  | Pause string
  | Resume string
  | Stop string
  | StopAll
  | Finish string int outcome int
  | Caught string string int
  | Runtime string Cron

fun step :: "(JobConfig \<Rightarrow> string + Cron) \<Rightarrow> action \<Rightarrow> CronManager \<Rightarrow> CronManager" where
  "step new_Cron (Register config) m = snd (register new_Cron config m)"
| "step new_Cron (Trigger name' now) m = snd (trigger name' now m)"
| "step new_Cron (Pause name') m = snd (pause name' m)"
| "step new_Cron (Resume name') m = snd (resume name' m)"
| "step new_Cron (Stop name') m = snd (stop name' m)"
| "step new_Cron StopAll m = stopAll m"
| "step new_Cron (Finish name' startTime' result now) m =
     (if map_of (configs m) name' = None then m
      else wrapper_finish name' startTime' result now m)"
| "step new_Cron (Caught name' errorMessage now) m =
     (if map_of (configs m) name' = None then m
      else catch_callback name' errorMessage now m)"
| "step new_Cron (Runtime name' job') m =
     (case map_of (jobs m) name' of
        None \<Rightarrow> m
      | Some job \<Rightarrow> m\<lparr>jobs := AList.update name' job' (jobs m)\<rparr>)"

definition run :: "(JobConfig \<Rightarrow> string + Cron) \<Rightarrow> action list \<Rightarrow> CronManager \<Rightarrow> CronManager" where
  "run new_Cron actions m = foldl (\<lambda>m' a. step new_Cron a m') m actions"

text \<open>
  The invariant of those histories: every runtime belongs to a stored configuration, no
  job's history is longer than \<open>maxExecutionLogs\<close>, and a successful record carries no
  error message.
\<close>

definition invariant :: "CronManager \<Rightarrow> bool" where
  "invariant m =
     (list_all (\<lambda>(name', job). map_of (configs m) name' \<noteq> None) (jobs m) \<and>
      list_all (\<lambda>(name', es). length es \<le> maxExecutionLogs m \<and>
                  list_all (\<lambda>e. success e \<longrightarrow> error e = None) es) (executions m))"

section \<open>Sample inputs\<close>

text \<open>
  A runtime as the library hands it out for a valid pattern (alive, not paused, not busy,
  with a next fire time), a constructor that accepts every configuration, a pattern
  evaluator that rejects the empty pattern only, and two configurations named \<open>x\<close>,
  the second with \<open>enabled: false\<close>.
\<close>

definition fresh_Cron :: Cron where
  "fresh_Cron = \<lparr>c_kill = False, c_paused = False, c_blocking = False,
                  c_next = Some 60000, c_previous = None, c_current = None\<rparr>"

definition sample_Cron :: "JobConfig \<Rightarrow> string + Cron" where
  "sample_Cron config = Inr fresh_Cron"


definition job_x :: JobConfig where
  "job_x = \<lparr>name = ''x'', description = ''sample'', pattern = ''*/1 * * * * *'',
            timezone = None, enabled = None\<rparr>"

definition job_x_disabled :: JobConfig where
  "job_x_disabled = job_x\<lparr>enabled := Some False\<rparr>"

definition registered_x :: "nat \<Rightarrow> CronManager" where
  "registered_x cap = snd (register sample_Cron job_x (new_CronManager cap))"

definition disabled_x :: "nat \<Rightarrow> CronManager" where
  "disabled_x cap = snd (register sample_Cron job_x_disabled (new_CronManager cap))"

definition five_runs :: "record_call list" where
  "five_runs =
     [(True, None, Some 1000, Some 1010, Some 10, 1010),
      (False, Some ''boom'', Some 2000, Some 2030, Some 30, 2030),
      (True, None, Some 3000, Some 3005, Some 5, 3005),
      (True, None, Some 4000, Some 4020, Some 20, 4020),
      (False, Some ''late'', Some 5000, Some 5007, Some 7, 5007)]"

definition twelve_runs :: "record_call list" where
  "twelve_runs = five_runs @ five_runs @
     [(True, None, Some 6000, Some 6001, Some 1, 6001),
      (True, None, Some 7000, Some 7002, Some 2, 7002)]"

section \<open>Basic facts about the operations\<close>

subsection \<open>Association lists and the invariant\<close>

lemma executions_of_update [simp]:
  "executions_of (m\<lparr>executions := AList.update n es (executions m)\<rparr>) n' =
     (if n' = n then es else executions_of m n')"
  by (simp add: executions_of_def update_conv')

lemma set_update_cases:
  "(k', v') \<in> set (AList.update k v al) \<Longrightarrow> (k', v') = (k, v) \<or> (k', v') \<in> set al"
  by (induction al) (auto split: if_splits)

lemma set_delete_subset: "(k', v') \<in> set (AList.delete k al) \<Longrightarrow> (k', v') \<in> set al"
  by (simp add: AList.delete_eq)

lemma invariant_iff:
  "invariant m \<longleftrightarrow>
     (\<forall>(n, j) \<in> set (jobs m). map_of (configs m) n \<noteq> None) \<and>
     (\<forall>(n, es) \<in> set (executions m).
        length es \<le> maxExecutionLogs m \<and> (\<forall>e \<in> set es. success e \<longrightarrow> error e = None))"
  by (auto simp: invariant_def list_all_iff)

lemma invariant_executions_of:
  assumes "invariant m"
  shows "length (executions_of m n) \<le> maxExecutionLogs m"
    and "e \<in> set (executions_of m n) \<Longrightarrow> success e \<Longrightarrow> error e = None"
proof -
  have "length (executions_of m n) \<le> maxExecutionLogs m \<and>
        (\<forall>e \<in> set (executions_of m n). success e \<longrightarrow> error e = None)"
  proof (cases "map_of (executions m) n")
    case None
    then show ?thesis by (simp add: executions_of_def)
  next
    case (Some es)
    then have "(n, es) \<in> set (executions m)" by (rule map_of_SomeD)
    with assms Some show ?thesis by (auto simp: invariant_iff executions_of_def)
  qed
  then show "length (executions_of m n) \<le> maxExecutionLogs m"
    and "e \<in> set (executions_of m n) \<Longrightarrow> success e \<Longrightarrow> error e = None"
    by blast+
qed

lemma invariant_jobs:
  assumes "invariant m" and "map_of (configs m) n = None"
  shows "map_of (jobs m) n = None"
proof (rule ccontr)
  assume "map_of (jobs m) n \<noteq> None"
  then obtain j where "map_of (jobs m) n = Some j" by blast
  then have "(n, j) \<in> set (jobs m)" by (rule map_of_SomeD)
  with assms show False by (auto simp: invariant_iff)
qed

lemma invariant_new: "invariant (new_CronManager cap)"
  by (simp add: invariant_def new_CronManager_def)

lemma invariant_jobs_update:
  assumes "invariant m" and "map_of (configs m) n \<noteq> None"
  shows "invariant (m\<lparr>jobs := AList.update n j (jobs m)\<rparr>)"
  using assms by (auto simp: invariant_iff dest!: set_update_cases)

lemma invariant_jobs_known:
  assumes "invariant m" and "map_of (jobs m) n = Some j"
  shows "map_of (configs m) n \<noteq> None"
  using assms invariant_jobs by fastforce

lemma invariant_recordExecution:
  assumes "invariant m" and "ok \<longrightarrow> err = None"
  shows "invariant (recordExecution n ok err st en du now m)"
proof -
  let ?e = "new_execution n ok err st en du now"
  have old: "length (executions_of m n) \<le> maxExecutionLogs m"
       "\<forall>e \<in> set (executions_of m n). success e \<longrightarrow> error e = None"
    using assms(1) invariant_executions_of by blast+
  have e: "success ?e \<longrightarrow> error ?e = None"
    using assms(2) by (simp add: new_execution_def)
  have "\<forall>x \<in> set (take (maxExecutionLogs m) (?e # executions_of m n)).
          success x \<longrightarrow> error x = None"
    using old(2) e by (auto dest!: in_set_takeD)
  then show ?thesis
    using assms(1) old e
    by (auto simp: invariant_iff recordExecution_def Let_def dest!: set_update_cases)
qed

lemma invariant_register: "invariant m \<Longrightarrow> invariant (snd (register new_Cron config m))"
  by (auto simp: invariant_iff register_def createJob_def Let_def update_conv'
           split: sum.splits dest!: set_update_cases)

lemma invariant_step: "invariant m \<Longrightarrow> invariant (step new_Cron a m)"
proof (cases a)
  case (Register config)
  assume "invariant m"
  then show ?thesis using Register by (simp add: invariant_register)
next
  case (Trigger n now)
  assume "invariant m"
  then show ?thesis using Trigger
    by (auto simp: trigger_def split: option.splits
             intro!: invariant_jobs_update dest: invariant_jobs_known)
next
  case (Pause n)
  assume "invariant m"
  then show ?thesis using Pause
    by (auto simp: pause_def split: option.splits
             intro!: invariant_jobs_update dest: invariant_jobs_known)
next
  case (Resume n)
  assume "invariant m"
  then show ?thesis using Resume
    by (auto simp: resume_def Let_def split: option.splits prod.splits
             intro!: invariant_jobs_update dest: invariant_jobs_known)
next
  case (Stop n)
  assume "invariant m"
  then show ?thesis using Stop
    by (auto simp: stop_def Let_def invariant_iff split: option.splits
             dest!: set_delete_subset set_update_cases map_of_SomeD)
next
  case StopAll
  assume "invariant m"
  then show ?thesis using StopAll by (simp add: stopAll_def Let_def invariant_def)
next
  case (Finish n t0 r t1)
  assume "invariant m"
  then show ?thesis using Finish
    by (cases r) (simp_all add: wrapper_finish_def Let_def invariant_recordExecution)
next
  case (Caught n msg now)
  assume "invariant m"
  then show ?thesis using Caught
    by (simp add: catch_callback_def invariant_recordExecution)
next
  case (Runtime n j')
  assume "invariant m"
  then show ?thesis using Runtime
    by (auto split: option.splits intro!: invariant_jobs_update dest: invariant_jobs_known)
qed

lemma invariant_run: "invariant m \<Longrightarrow> invariant (run new_Cron actions m)"
  unfolding run_def by (induction actions arbitrary: m) (simp_all add: invariant_step)

lemma step_cap [simp]: "maxExecutionLogs (step new_Cron a m) = maxExecutionLogs m"
  by (cases a)
     (auto simp: register_def createJob_def trigger_def pause_def resume_def stop_def
                 stopAll_def wrapper_finish_def catch_callback_def recordExecution_def Let_def
           split: sum.splits option.splits prod.splits outcome.splits)

lemma run_cap [simp]: "maxExecutionLogs (run new_Cron actions m) = maxExecutionLogs m"
  unfolding run_def by (induction actions arbitrary: m) simp_all

subsection \<open>Recording executions\<close>

lemma recordExecution_history:
  "executions_of (recordExecution n ok err st en du now m) n =
     take (maxExecutionLogs m) (new_execution n ok err st en du now # executions_of m n)"
  by (simp add: recordExecution_def Let_def)

lemma recordExecution_cap [simp]:
  "maxExecutionLogs (recordExecution n ok err st en du now m) = maxExecutionLogs m"
  by (simp add: recordExecution_def Let_def)

lemma take_Cons_take: "take k (x # take k xs) = take k (x # xs)"
  by (cases k) simp_all

lemma recordAll_cap [simp]: "maxExecutionLogs (recordAll n calls m) = maxExecutionLogs m"
  by (induction n calls m rule: recordAll.induct) simp_all

lemma recordAll_history:
  "length (executions_of m n) \<le> maxExecutionLogs m \<Longrightarrow>
   executions_of (recordAll n calls m) n =
     take (maxExecutionLogs m) (rev (map (execution_of n) calls) @ executions_of m n)"
proof (induction n calls m rule: recordAll.induct)
  case (1 n m)
  then show ?case by simp
next
  case (2 n ok err st en du now rest m)
  let ?m' = "recordExecution n ok err st en du now m"
  let ?e = "new_execution n ok err st en du now"
  have len: "length (executions_of ?m' n) \<le> maxExecutionLogs ?m'"
    by (simp add: recordExecution_history)
  have "executions_of (recordAll n rest ?m') n =
        take (maxExecutionLogs m) (rev (map (execution_of n) rest) @ executions_of ?m' n)"
    using "2.IH" [OF len] by simp
  also have "\<dots> = take (maxExecutionLogs m)
                    (rev (map (execution_of n) rest) @ ?e # executions_of m n)"
    by (simp add: recordExecution_history take_Cons_take)
  finally show ?case by simp
qed

lemma recordAll_configs [simp]: "configs (recordAll n calls m) = configs m"
  by (induction n calls m rule: recordAll.induct) (simp_all add: recordExecution_def Let_def)

subsection \<open>Queries\<close>

lemma getJob_None_iff: "getJob m n = None \<longleftrightarrow> map_of (configs m) n = None"
  by (simp add: getJob_def Let_def split: option.splits)

lemma getJob_fields:
  assumes "getJob m n = Some info"
  shows "status info = getJobStatus (map_of (jobs m) n)"
    and "info_executions info = take 10 (executions_of m n)"
    and "totalRuns (stats info) = length (executions_of m n)"
    and "successfulRuns (stats info) = length (filter success (executions_of m n))"
    and "failedRuns (stats info) = length (filter (\<lambda>e. \<not> success e) (executions_of m n))"
    and "\<exists>config. map_of (configs m) n = Some config \<and> info_name info = name config
           \<and> info_enabled info = (enabled config \<noteq> Some False)"
  using assms by (auto simp: getJob_def Let_def split: option.splits)

lemma getJobStatus_Idle:
  "getJobStatus (Some job) = Idle \<longleftrightarrow>
     \<not> Cron_isStopped job \<and> Cron_isRunning job \<and> \<not> Cron_isBusy job"
  by simp

lemma length_map_filter_total:
  "(\<And>x. x \<in> set xs \<Longrightarrow> f x \<noteq> None) \<Longrightarrow> length (List.map_filter f xs) = length xs"
  by (induction xs) (auto simp: List.map_filter_simps split: option.splits)

lemma set_map_filter: "y \<in> set (List.map_filter f xs) \<longleftrightarrow> (\<exists>x \<in> set xs. f x = Some y)"
  by (induction xs) (auto simp: List.map_filter_simps split: option.splits)

lemma length_getAllJobs: "length (getAllJobs m) = length (configs m)"
proof -
  have "getJob m k \<noteq> None" if "k \<in> set (map fst (configs m))" for k
    using that by (simp add: getJob_None_iff map_of_eq_None_iff)
  then have "length (getAllJobs m) = length (map fst (configs m))"
    unfolding getAllJobs_def by (rule length_map_filter_total)
  then show ?thesis by simp
qed

lemma foldl_add_sum_list:
  "foldl (\<lambda>acc e. acc + f e) a xs = a + sum_list (map f xs)" for a :: int
  by (induction xs arbitrary: a) simp_all

lemma round_div_nearest:
  assumes "0 < n"
  shows "2 * t - int n < 2 * int n * round_div t n \<and> 2 * int n * round_div t n \<le> 2 * t + int n"
proof -
  define k where "k = 2 * int n"
  define a where "a = 2 * t + int n"
  have k: "0 < k" using assms by (simp add: k_def)
  have "a = k * (a div k) + a mod k" by simp
  moreover have "0 \<le> a mod k" "a mod k < k" using k by simp_all
  ultimately have "a - k < k * (a div k)" "k * (a div k) \<le> a" by linarith+
  then show ?thesis by (simp add: round_div_def k_def a_def)
qed

subsection \<open>Registration and control\<close>

lemma register_success:
  assumes "register new_Cron config m = (None, m')"
  shows "map_of (jobs m) (name config) = None"
    and "map_of (configs m') (name config) = Some config"
    and "executions_of m' (name config) = []"
    and "enabled config = Some False \<Longrightarrow> jobs m' = jobs m"
    and "enabled config \<noteq> Some False \<Longrightarrow>
           \<exists>job. new_Cron config = Inr job \<and> map_of (jobs m') (name config) = Some job"
  using assms
  by (auto simp: register_def createJob_def Let_def update_conv' executions_of_def
           split: if_splits sum.splits)

lemma register_duplicate_unchanged:
  "map_of (jobs m) (name config) \<noteq> None \<Longrightarrow>
   register new_Cron config m = (Some (DuplicateJob (name config)), m)"
  by (simp add: register_def)

lemma stop_effect:
  "map_of (jobs (snd (stop n m))) n = None"
  "configs (snd (stop n m)) = configs m"
  "executions (snd (stop n m)) = executions m"
  "fst (stop n m) = (map_of (jobs m) n \<noteq> None)"
  by (auto simp: stop_def Let_def delete_conv' split: option.splits)

lemma stopAll_effect:
  "jobs (stopAll m) = []" "configs (stopAll m) = configs m"
  "executions (stopAll m) = executions m"
  by (simp_all add: stopAll_def Let_def)

lemma getAllJobs_stopAll_status:
  assumes "info \<in> set (getAllJobs (stopAll m))"
  shows "status info = Stopped"
proof -
  from assms obtain k where "getJob (stopAll m) k = Some info"
    by (auto simp: getAllJobs_def set_map_filter)
  from getJob_fields(1) [OF this] show ?thesis by (simp add: stopAll_effect)
qed

lemma no_runtime_controls:
  assumes "map_of (jobs m) n = None"
  shows "trigger n now m = (False, m)" "pause n m = (False, m)"
        "resume n m = (False, m)" "stop n m = (False, m)"
  using assms by (simp_all add: trigger_def pause_def resume_def stop_def)

lemma control_flags:
  "fst (trigger n now m) = (map_of (jobs m) n \<noteq> None)"
  "fst (pause n m) = (map_of (jobs m) n \<noteq> None)"
  "fst (stop n m) = (map_of (jobs m) n \<noteq> None)"
  "fst (resume n m) = (case map_of (jobs m) n of None \<Rightarrow> False | Some job \<Rightarrow> fst (Cron_resume job))"
  by (auto simp: trigger_def pause_def resume_def stop_def Let_def split: option.splits prod.splits)

lemma stop_frame: "snd (stop n m) = m\<lparr>jobs := AList.delete n (jobs m)\<rparr>"
proof (cases "map_of (jobs m) n")
  case None
  then have "n \<notin> fst ` set (jobs m)" by (simp add: map_of_eq_None_iff)
  then have "AList.delete n (jobs m) = jobs m" by (rule AList.delete_id)
  then show ?thesis using None by (simp add: stop_def)
next
  case (Some job)
  then show ?thesis by (simp add: stop_def Let_def delete_update_same)
qed

lemma getJob_average:
  assumes "getJob m n = Some info"
  shows "averageDuration (stats info) =
           (if executions_of m n = [] then 0
            else round_div (\<Sum>e\<leftarrow>executions_of m n. case duration e of Some d \<Rightarrow> d | None \<Rightarrow> 0)
                   (length (executions_of m n)))"
  using assms by (auto simp: getJob_def Let_def foldl_add_sum_list split: option.splits)

subsection \<open>The sample states\<close>

lemma sample_states:
  "registered_x cap =
     \<lparr>jobs = [(''x'', fresh_Cron)], configs = [(''x'', job_x)],
      executions = [(''x'', [])], maxExecutionLogs = cap\<rparr>"
  "disabled_x cap =
     \<lparr>jobs = [], configs = [(''x'', job_x_disabled)],
      executions = [(''x'', [])], maxExecutionLogs = cap\<rparr>"
  "name job_x = ''x''" "name job_x_disabled = ''x''"
  "enabled job_x = None" "enabled job_x_disabled = Some False"
  by (simp_all add: registered_x_def disabled_x_def register_def createJob_def sample_Cron_def
        new_CronManager_def job_x_def job_x_disabled_def Let_def)

lemma invariant_registered_x: "invariant (registered_x cap)"
  by (simp add: sample_states invariant_def job_x_def)

lemma registered_x_run:
  "registered_x cap = run sample_Cron [Register job_x] (new_CronManager cap)"
  by (simp add: run_def registered_x_def)

lemma twelve_history:
  "executions_of (recordAll ''x'' twelve_runs (registered_x 100)) ''x'' =
     rev (map (execution_of ''x'') twelve_runs)"
proof -
  have inv: "invariant (registered_x 100)"
    by (simp add: sample_states invariant_def job_x_def)
  have "length (twelve_runs) = 12" by (simp add: twelve_runs_def five_runs_def)
  then show ?thesis
    using recordAll_history [OF invariant_executions_of(1) [OF inv], of "''x''" twelve_runs]
    by (simp add: sample_states executions_of_def)
qed

section \<open>The claims\<close>

subsection \<open>C1: stopping a job\<close>

text \<open>
  \<open>stop\<close> deletes the runtime from \<open>jobs\<close> only; \<open>getJob\<close> looks the name up
  in \<open>configs\<close>. After registering \<open>x\<close> and stopping it, \<open>stop\<close> has returned
  true and \<open>getJob\<close> still finds the job, where C1 expects the not-found result.
\<close>

theorem stop_then_getJob_counterexample:
  "fst (stop ''x'' (registered_x 100)) = True \<and>
   getJob (snd (stop ''x'' (registered_x 100))) ''x'' \<noteq> None"
  by (simp add: stop_effect getJob_None_iff sample_states)

text \<open>
  C1, as the code has it: for every registered name and every manager state, \<open>stop\<close>
  removes that name's runtime from \<open>jobs\<close> and changes nothing else in the manager.
  Afterwards \<open>getJob\<close> still finds the job: its snapshot is the one from before the
  stop (definition, history and statistics) with the status Stopped, no fire times and
  not busy. Every other job keeps its runtime and its snapshot.
\<close>

theorem stop_then_getJob:
  assumes "getJob m n = Some before"
  shows "getJob (snd (stop n m)) n =
           Some (before\<lparr>status := Stopped, nextRun := None, previousRun := None,
                         currentRun := None, isBusy := False\<rparr>) \<and>
         snd (stop n m) = m\<lparr>jobs := AList.delete n (jobs m)\<rparr> \<and>
         map_of (jobs (snd (stop n m))) n = None \<and>
         (\<forall>other. other \<noteq> n \<longrightarrow>
            map_of (jobs (snd (stop n m))) other = map_of (jobs m) other \<and>
            getJob (snd (stop n m)) other = getJob m other)"
proof -
  have same: "getJob (snd (stop n m)) n =
           Some (before\<lparr>status := Stopped, nextRun := None, previousRun := None,
                         currentRun := None, isBusy := False\<rparr>)"
    using assms
    by (auto simp: getJob_def Let_def executions_of_def stop_frame delete_conv'
             split: option.splits)
  have others: "map_of (jobs (snd (stop n m))) other = map_of (jobs m) other \<and>
      getJob (snd (stop n m)) other = getJob m other" if "other \<noteq> n" for other
    using that
    by (simp add: getJob_def Let_def executions_of_def stop_frame delete_conv'
          split: option.splits)
  show ?thesis
    using same others by (simp add: stop_frame delete_conv')
qed

theorem stop_then_getJob_witness:
  "getJob (snd (stop ''x'' (registered_x 100))) ''x'' =
     Some \<lparr>info_name = ''x'', info_description = ''sample'', info_pattern = ''*/1 * * * * *'',
           info_timezone = None, info_enabled = True, status = Stopped, nextRun = None,
           previousRun = None, currentRun = None, isBusy = False, info_executions = [],
           stats = \<lparr>totalRuns = 0, successfulRuns = 0, failedRuns = 0,
                    averageDuration = 0\<rparr>\<rparr> \<and>
   jobs (snd (stop ''x'' (registered_x 100))) = [] \<and>
   configs (snd (stop ''x'' (registered_x 100))) = [(''x'', job_x)] \<and>
   getJob (snd (stop ''x'' (registered_x 100))) ''y'' = getJob (registered_x 100) ''y''"
proof -
  have h: "getJob (registered_x 100) ''x'' =
     Some \<lparr>info_name = ''x'', info_description = ''sample'', info_pattern = ''*/1 * * * * *'',
           info_timezone = None, info_enabled = True, status = Idle, nextRun = Some 60000,
           previousRun = None, currentRun = None, isBusy = False, info_executions = [],
           stats = \<lparr>totalRuns = 0, successfulRuns = 0, failedRuns = 0,
                    averageDuration = 0\<rparr>\<rparr>"
    by (simp add: getJob_def Let_def sample_states executions_of_def job_x_def fresh_Cron_def
          Cron_isStopped_def Cron_isRunning_def Cron_isBusy_def)
  let ?s = "snd (stop ''x'' (registered_x 100))"
  note t = stop_then_getJob [OF h]
  note t1 = t [THEN conjunct1]
  note t2 = t [THEN conjunct2, THEN conjunct1]
  note t4 = t [THEN conjunct2, THEN conjunct2, THEN conjunct2, THEN spec, of "''y''"]
  have a: "getJob ?s ''x'' =
     Some \<lparr>info_name = ''x'', info_description = ''sample'', info_pattern = ''*/1 * * * * *'',
           info_timezone = None, info_enabled = True, status = Stopped, nextRun = None,
           previousRun = None, currentRun = None, isBusy = False, info_executions = [],
           stats = \<lparr>totalRuns = 0, successfulRuns = 0, failedRuns = 0,
                    averageDuration = 0\<rparr>\<rparr>"
    unfolding t1 by simp
  have b: "jobs ?s = []" "configs ?s = [(''x'', job_x)]"
    unfolding t2 by (simp_all add: sample_states AList.delete_eq)
  have c: "getJob ?s ''y'' = getJob (registered_x 100) ''y''"
    using t4 by simp
  show ?thesis
    by (rule conjI [OF a conjI [OF b(1) conjI [OF b(2) c]]])
qed

subsection \<open>C2: registering a name twice\<close>

text \<open>
  \<open>register\<close> rejects a name that has a runtime in \<open>jobs\<close>
  (\<open>register_duplicate_unchanged\<close>: the error is raised and the manager is left as it
  was). A job registered with \<open>enabled: false\<close> has no runtime, so the check misses it.
  C2 at that input: \<open>x\<close> is registered (\<open>getJob\<close> finds it), yet registering
  \<open>x\<close> again raises nothing and replaces the stored configuration.
\<close>

theorem register_over_disabled_job:
  "getJob (disabled_x 100) ''x'' \<noteq> None \<and>
   fst (register sample_Cron job_x (disabled_x 100)) = None \<and>
   snd (register sample_Cron job_x (disabled_x 100)) = registered_x 100 \<and>
   registered_x 100 \<noteq> disabled_x 100"
  by (simp add: getJob_None_iff sample_states register_def createJob_def sample_Cron_def Let_def)

subsection \<open>C3: the history cap\<close>

text \<open>
  C3: in every state the manager can reach, no job's history is longer than
  \<open>maxExecutionLogs\<close>. Recording a sequence of executions from such a state leaves the
  newest records first, cut to the cap; when more executions than the cap were recorded,
  exactly cap records remain and they are the last cap ones recorded, newest first.
\<close>

theorem history_capped:
  assumes "m = run new_Cron actions (new_CronManager cap)"
  shows "maxExecutionLogs m = cap \<and>
         length (executions_of m n) \<le> cap \<and>
         executions_of (recordAll n calls m) n =
           take cap (rev (map (execution_of n) calls) @ executions_of m n) \<and>
         (cap < length calls \<longrightarrow>
            length (executions_of (recordAll n calls m) n) = cap \<and>
            executions_of (recordAll n calls m) n =
              rev (drop (length calls - cap) (map (execution_of n) calls)))"
proof -
  have inv: "invariant m"
    unfolding assms by (rule invariant_run) (rule invariant_new)
  have cap: "maxExecutionLogs m = cap"
    unfolding assms by (simp add: new_CronManager_def)
  have len: "length (executions_of m n) \<le> maxExecutionLogs m"
    using inv by (rule invariant_executions_of)
  note eq = recordAll_history [OF len, of calls]
  have "executions_of (recordAll n calls m) n =
      rev (drop (length calls - cap) (map (execution_of n) calls))"
    if "cap < length calls"
    using that by (simp add: eq cap take_rev)
  then show ?thesis using eq len cap by auto
qed

theorem history_capped_witness:
  "registered_x 3 = run sample_Cron [Register job_x] (new_CronManager 3) \<and>
   3 < length five_runs \<and>
   executions_of (recordAll ''x'' five_runs (registered_x 3)) ''x'' =
     [\<lparr>jobName = ''x'', startTime = 5000, endTime = Some 5007, duration = Some 7,
        success = False, error = Some ''late''\<rparr>,
      \<lparr>jobName = ''x'', startTime = 4000, endTime = Some 4020, duration = Some 20,
        success = True, error = None\<rparr>,
      \<lparr>jobName = ''x'', startTime = 3000, endTime = Some 3005, duration = Some 5,
        success = True, error = None\<rparr>]"
proof -
  have five: "(3::nat) < length five_runs" by (simp add: five_runs_def)
  from history_capped [OF registered_x_run [of 3], where n = "''x''" and calls = five_runs] five
  have "executions_of (recordAll ''x'' five_runs (registered_x 3)) ''x'' =
      rev (drop (length five_runs - 3) (map (execution_of ''x'') five_runs))"
    by blast
  then show ?thesis
    using five registered_x_run [of 3] by (simp add: five_runs_def new_execution_def)
qed

subsection \<open>C4: the status right after registration\<close>




subsection \<open>C5: stopping all jobs\<close>

text \<open>
  \<open>stopAll\<close> clears \<open>jobs\<close> and leaves \<open>configs\<close> alone, and \<open>getAllJobs\<close>
  walks \<open>configs\<close>: after registering one job and stopping all, \<open>getAllJobs\<close> is not
  empty and \<open>getStats\<close> counts one job, where C5 expects none.
\<close>

theorem stopAll_counterexample:
  "getAllJobs (stopAll (registered_x 100)) \<noteq> [] \<and>
   totalJobs (getStats (stopAll (registered_x 100))) = 1"
proof -
  have "length (getAllJobs (stopAll (registered_x 100))) = 1"
    by (simp add: length_getAllJobs stopAll_effect sample_states)
  then show ?thesis by (auto simp: getStats_def Let_def)
qed

text \<open>
  C5, as the code has it: \<open>stopAll\<close> empties the runtime map and keeps every definition
  and history. Afterwards \<open>getAllJobs\<close> returns as many snapshots as before, each with
  status Stopped, and \<open>getStats\<close> reports the same total, all of it stopped, none running
  and none paused.
\<close>

theorem stopAll_stops_every_job:
  "jobs (stopAll m) = [] \<and> configs (stopAll m) = configs m \<and>
   executions (stopAll m) = executions m \<and>
   length (getAllJobs (stopAll m)) = length (getAllJobs m) \<and>
   (\<forall>info \<in> set (getAllJobs (stopAll m)). status info = Stopped) \<and>
   totalJobs (getStats (stopAll m)) = totalJobs (getStats m) \<and>
   stoppedJobs (getStats (stopAll m)) = totalJobs (getStats m) \<and>
   runningJobs (getStats (stopAll m)) = 0 \<and>
   pausedJobs (getStats (stopAll m)) = 0"
proof -
  have len: "length (getAllJobs (stopAll m)) = length (getAllJobs m)"
    by (simp add: length_getAllJobs stopAll_effect)
  have all: "\<forall>info \<in> set (getAllJobs (stopAll m)). status info = Stopped"
    using getAllJobs_stopAll_status by blast
  have f1: "filter (\<lambda>j. status j = Stopped) (getAllJobs (stopAll m)) = getAllJobs (stopAll m)"
    using all by (simp add: filter_id_conv)
  have f2: "filter (\<lambda>j. status j = Running \<or> status j = Idle) (getAllJobs (stopAll m)) = []"
    using all by (auto simp: filter_empty_conv)
  have f3: "filter (\<lambda>j. status j = Paused) (getAllJobs (stopAll m)) = []"
    using all by (auto simp: filter_empty_conv)
  show ?thesis
    using len all by (simp add: getStats_def Let_def f1 f2 f3 stopAll_effect)
qed

theorem stopAll_stops_every_job_witness:
  "map status (getAllJobs (stopAll (registered_x 100))) = [Stopped] \<and>
   map status (getAllJobs (registered_x 100)) = [Idle] \<and>
   totalJobs (getStats (stopAll (registered_x 100))) = 1 \<and>
   stoppedJobs (getStats (stopAll (registered_x 100))) = 1"
proof -
  have a: "map status (getAllJobs (registered_x 100)) = [Idle]"
    by (simp add: getAllJobs_def List.map_filter_simps getJob_def Let_def sample_states
          fresh_Cron_def Cron_isStopped_def Cron_isRunning_def Cron_isBusy_def)
  then have t: "totalJobs (getStats (registered_x 100)) = 1"
    by (simp add: getStats_def Let_def length_getAllJobs sample_states)
  have l: "length (getAllJobs (registered_x 100)) = 1"
    by (simp add: length_getAllJobs sample_states)
  from stopAll_stops_every_job [of "registered_x 100"]
  have "length (getAllJobs (stopAll (registered_x 100))) = 1"
    and "\<forall>info \<in> set (getAllJobs (stopAll (registered_x 100))). status info = Stopped"
    and "totalJobs (getStats (stopAll (registered_x 100))) = 1"
    and "stoppedJobs (getStats (stopAll (registered_x 100))) = 1"
    using t l by simp_all
  moreover from this(1,2) have "map status (getAllJobs (stopAll (registered_x 100))) = [Stopped]"
    by (cases "getAllJobs (stopAll (registered_x 100))") auto
  ultimately show ?thesis using a by simp
qed

subsection \<open>C6: the results of the control operations\<close>

text \<open>
  \<open>pause\<close> discards what the runtime answers and returns true whenever the name has a
  runtime: pausing a job that already reports Paused returns true, where C6 expects false
  for a transition that does not apply.
\<close>

theorem pause_paused_counterexample:
  "map_option status (getJob (snd (pause ''x'' (registered_x 100))) ''x'') = Some Paused \<and>
   fst (pause ''x'' (snd (pause ''x'' (registered_x 100)))) = True"
  by (simp add: sample_states pause_def getJob_def Let_def Cron_pause_def fresh_Cron_def
        Cron_isStopped_def Cron_isRunning_def)

text \<open>
  C6, as the code has it: in every state the manager can reach, \<open>trigger\<close>, \<open>pause\<close>
  and \<open>stop\<close> return true exactly when the name has a runtime in \<open>jobs\<close>, whatever
  state that runtime is in; \<open>resume\<close> returns false without a runtime and the runtime's
  own answer otherwise; and a name that \<open>getJob\<close> does not find has no runtime, so all
  four return false for it. The operations are total functions: none raises.
\<close>

theorem control_results:
  assumes "m = run new_Cron actions (new_CronManager cap)"
  shows "fst (trigger n now m) = (map_of (jobs m) n \<noteq> None) \<and>
         fst (pause n m) = (map_of (jobs m) n \<noteq> None) \<and>
         fst (stop n m) = (map_of (jobs m) n \<noteq> None) \<and>
         fst (resume n m) =
           (case map_of (jobs m) n of None \<Rightarrow> False | Some job \<Rightarrow> fst (Cron_resume job)) \<and>
         (getJob m n = None \<longrightarrow> map_of (jobs m) n = None)"
proof -
  have "invariant m"
    unfolding assms by (rule invariant_run) (rule invariant_new)
  then have "getJob m n = None \<longrightarrow> map_of (jobs m) n = None"
    by (simp add: getJob_None_iff invariant_jobs)
  then show ?thesis by (simp add: control_flags)
qed

theorem control_results_witness:
  "registered_x 100 = run sample_Cron [Register job_x] (new_CronManager 100) \<and>
   getJob (registered_x 100) ''y'' = None \<and>
   fst (trigger ''y'' 5 (registered_x 100)) = False \<and>
   fst (pause ''y'' (registered_x 100)) = False \<and>
   fst (resume ''y'' (registered_x 100)) = False \<and>
   fst (stop ''y'' (registered_x 100)) = False \<and>
   fst (pause ''x'' (registered_x 100)) = True"
proof -
  have h: "registered_x 100 = run sample_Cron [Register job_x] (new_CronManager 100)"
    by (simp add: run_def registered_x_def)
  from control_results [OF h, of "''y''" 5] control_results [OF h, of "''x''" 5]
  have "getJob (registered_x 100) ''y'' = None \<and>
   fst (trigger ''y'' 5 (registered_x 100)) = False \<and>
   fst (pause ''y'' (registered_x 100)) = False \<and>
   fst (resume ''y'' (registered_x 100)) = False \<and>
   fst (stop ''y'' (registered_x 100)) = False \<and>
   fst (pause ''x'' (registered_x 100)) = True"
    by (simp add: getJob_None_iff sample_states)
  with h show ?thesis by blast
qed

subsection \<open>C7: the snapshot returned by getJob\<close>

text \<open>
  C7: \<open>getJob\<close> answers not-found exactly for a name without a stored configuration.
  Otherwise the snapshot carries the first ten records of the job's history, while the
  run counts and the mean duration range over the whole retained history: the mean is 0
  for an empty history and otherwise the integer nearest to the sum of all durations
  divided by the number of all records, a half rounded upwards (for sums in the range
  where the source's arithmetic is exact). After recording a sequence of executions the
  ten records are the newest ones, newest first.
\<close>

theorem getJob_snapshot:
  "(getJob m n = None) = (map_of (configs m) n = None) \<and>
   (\<forall>info. getJob m n = Some info \<longrightarrow>
      info_executions info = take 10 (executions_of m n) \<and>
      length (info_executions info) \<le> 10 \<and>
      totalRuns (stats info) = length (executions_of m n) \<and>
      successfulRuns (stats info) = length (filter success (executions_of m n)) \<and>
      failedRuns (stats info) = length (filter (\<lambda>e. \<not> success e) (executions_of m n)) \<and>
      (executions_of m n = [] \<longrightarrow> averageDuration (stats info) = 0) \<and>
      (executions_of m n \<noteq> [] \<and>
       (\<Sum>e\<leftarrow>executions_of m n. \<bar>case duration e of Some d \<Rightarrow> d | None \<Rightarrow> 0\<bar>) < 2 ^ 52 \<longrightarrow>
         2 * (\<Sum>e\<leftarrow>executions_of m n. case duration e of Some d \<Rightarrow> d | None \<Rightarrow> 0)
             - int (length (executions_of m n))
           < 2 * int (length (executions_of m n)) * averageDuration (stats info) \<and>
         2 * int (length (executions_of m n)) * averageDuration (stats info)
           \<le> 2 * (\<Sum>e\<leftarrow>executions_of m n. case duration e of Some d \<Rightarrow> d | None \<Rightarrow> 0)
               + int (length (executions_of m n)))) \<and>
   (\<forall>info. invariant m \<and> getJob (recordAll n calls m) n = Some info \<longrightarrow>
      info_executions info =
        take 10 (take (maxExecutionLogs m) (rev (map (execution_of n) calls) @ executions_of m n)))"
proof -
  let ?h = "executions_of m n"
  let ?T = "\<Sum>e\<leftarrow>?h. case duration e of Some d \<Rightarrow> d | None \<Rightarrow> 0"
  have empty: "averageDuration (stats info) = 0"
    if "getJob m n = Some info" "?h = []" for info
    using getJob_average [OF that(1)] that(2) by simp
  have mean: "2 * ?T - int (length ?h) < 2 * int (length ?h) * averageDuration (stats info) \<and>
              2 * int (length ?h) * averageDuration (stats info) \<le> 2 * ?T + int (length ?h)"
    if "getJob m n = Some info" "?h \<noteq> []" for info
  proof -
    have "0 < length ?h" using that(2) by simp
    from round_div_nearest [OF this, of ?T] show ?thesis
      using getJob_average [OF that(1)] that(2) by simp
  qed
  have rec: "info_executions info =
        take 10 (take (maxExecutionLogs m) (rev (map (execution_of n) calls) @ ?h))"
    if "invariant m" "getJob (recordAll n calls m) n = Some info" for info
    using getJob_fields(2) [OF that(2)] recordAll_history [OF invariant_executions_of(1) [OF that(1)]]
    by simp
  have fields: "info_executions info = take 10 ?h \<and>
      length (info_executions info) \<le> 10 \<and>
      totalRuns (stats info) = length ?h \<and>
      successfulRuns (stats info) = length (filter success ?h) \<and>
      failedRuns (stats info) = length (filter (\<lambda>e. \<not> success e) ?h)"
    if "getJob m n = Some info" for info
    using getJob_fields(2,3,4,5) [OF that] by simp
  show ?thesis
    using empty mean rec fields getJob_None_iff [of m n] by blast
qed

theorem getJob_snapshot_witness:
  "\<exists>info. getJob (recordAll ''x'' twelve_runs (registered_x 100)) ''x'' = Some info \<and>
     length (info_executions info) = 10 \<and> totalRuns (stats info) = 12 \<and>
     successfulRuns (stats info) = 8 \<and> failedRuns (stats info) = 4 \<and>
     averageDuration (stats info) = 12"
proof -
  let ?m = "recordAll ''x'' twelve_runs (registered_x 100)"
  have "getJob ?m ''x'' \<noteq> None"
    by (simp add: getJob_None_iff sample_states)
  then obtain info where info: "getJob ?m ''x'' = Some info" by blast
  have s: "map success (rev (map (execution_of ''x'') twelve_runs)) =
        [True, True, False, True, True, False, True, False, True, True, False, True]"
    by (simp add: twelve_runs_def five_runs_def new_execution_def)
  have d: "map (\<lambda>e. case duration e of Some d \<Rightarrow> d | None \<Rightarrow> 0)
             (rev (map (execution_of ''x'') twelve_runs)) =
        [2, 1, 7, 20, 5, 30, 10, 7, 20, 5, 30, 10]"
    by (simp add: twelve_runs_def five_runs_def new_execution_def)
  have l: "length (filter success es) = length (filter id (map success es))"
          "length (filter (\<lambda>e. \<not> success e) es) = length (filter Not (map success es))"
    for es :: "JobExecution list"
    by (simp_all add: filter_map comp_def)
  have ne: "executions_of ?m ''x'' \<noteq> []"
    unfolding twelve_history by (simp add: twelve_runs_def five_runs_def)
  have len: "length (executions_of ?m ''x'') = 12"
    unfolding twelve_history by (simp add: twelve_runs_def five_runs_def)
  have total: "(\<Sum>e\<leftarrow>executions_of ?m ''x''. case duration e of Some d \<Rightarrow> d | None \<Rightarrow> 0) = 147"
    unfolding twelve_history d by simp
  have abs_total: "(\<Sum>e\<leftarrow>executions_of ?m ''x''. \<bar>case duration e of Some d \<Rightarrow> d | None \<Rightarrow> 0\<bar>) = 147"
    using arg_cong [OF d, of "map abs"] unfolding twelve_history
    by (simp add: comp_def)
  note t = getJob_snapshot [of ?m "''x''" "[]", THEN conjunct2, THEN conjunct1, THEN spec,
      THEN mp, OF info]
  from t have "info_executions info = take 10 (executions_of ?m ''x'')"
    and "totalRuns (stats info) = length (executions_of ?m ''x'')"
    and "successfulRuns (stats info) = length (filter success (executions_of ?m ''x''))"
    and "failedRuns (stats info) = length (filter (\<lambda>e. \<not> success e) (executions_of ?m ''x''))"
    by blast+
  then have counts: "length (info_executions info) = 10 \<and> totalRuns (stats info) = 12 \<and>
     successfulRuns (stats info) = 8 \<and> failedRuns (stats info) = 4"
    unfolding twelve_history l s by (simp add: twelve_runs_def five_runs_def)
  have "(147::int) < 2 ^ 52" by simp
  with t ne have "2 * 147 - 12 < 2 * 12 * averageDuration (stats info) \<and>
      2 * 12 * averageDuration (stats info) \<le> 2 * 147 + 12"
    unfolding total abs_total len by simp
  then have "averageDuration (stats info) = 12" by arith
  with info counts show ?thesis by blast
qed

subsection \<open>C8: what the execution wrapper records\<close>

text \<open>
  Before the handler runs the wrapper only reads the clock: after the start of a run on a
  freshly registered job the history is still empty, where C8 expects a pending record.
\<close>

theorem wrapper_start_counterexample:
  "executions_of (snd (wrapper_start 1000 (registered_x 100))) ''x'' = []"
  by (simp add: wrapper_start_def sample_states executions_of_def)

text \<open>
  C8, as the code has it: the start of a run leaves the manager unchanged; the completion
  of a run puts one record at the front of the job's history (cut to the cap), already
  final: start and end time, their difference as duration, the success flag, and an error
  message exactly when the handler threw. In every state the manager can reach, a
  successful record carries no error message.
\<close>

theorem wrapper_records_at_completion:
  "wrapper_start t0 m = (t0, m) \<and>
   executions_of (wrapper_finish n t0 result t1 m) n =
     take (maxExecutionLogs m)
       (\<lparr>jobName = n, startTime = t0, endTime = Some t1, duration = Some (t1 - t0),
         success = (result = Returned),
         error = (case result of Returned \<Rightarrow> None | Threw msg \<Rightarrow> Some msg)\<rparr>
        # executions_of m n) \<and>
   (\<forall>e \<in> set (executions_of (run new_Cron actions (new_CronManager cap)) n').
      success e \<longrightarrow> error e = None)"
proof -
  have "invariant (run new_Cron actions (new_CronManager cap))"
    by (rule invariant_run) (rule invariant_new)
  then have "\<forall>e \<in> set (executions_of (run new_Cron actions (new_CronManager cap)) n').
      success e \<longrightarrow> error e = None"
    using invariant_executions_of(2) by blast
  moreover have "executions_of (wrapper_finish n t0 result t1 m) n =
     take (maxExecutionLogs m)
       (\<lparr>jobName = n, startTime = t0, endTime = Some t1, duration = Some (t1 - t0),
         success = (result = Returned),
         error = (case result of Returned \<Rightarrow> None | Threw msg \<Rightarrow> Some msg)\<rparr>
        # executions_of m n)"
    by (cases result)
       (simp_all add: wrapper_finish_def Let_def recordExecution_history new_execution_def)
  ultimately show ?thesis by (simp add: wrapper_start_def)
qed

theorem wrapper_records_at_completion_witness:
  "executions_of
     (run sample_Cron [Register job_x, Finish ''x'' 1000 Returned 1010,
                       Finish ''x'' 2000 (Threw ''boom'') 2030] (new_CronManager 100)) ''x'' =
     [\<lparr>jobName = ''x'', startTime = 2000, endTime = Some 2030, duration = Some 30,
        success = False, error = Some ''boom''\<rparr>,
      \<lparr>jobName = ''x'', startTime = 1000, endTime = Some 1010, duration = Some 10,
        success = True, error = None\<rparr>]"
proof -
  let ?m1 = "wrapper_finish ''x'' 1000 Returned 1010 (registered_x 100)"
  have c: "configs (wrapper_finish n t0 r t1 m) = configs m" for n t0 r t1 m
    by (cases r) (simp_all add: wrapper_finish_def recordExecution_def Let_def)
  have k: "maxExecutionLogs (wrapper_finish n t0 r t1 m) = maxExecutionLogs m" for n t0 r t1 m
    by (cases r) (simp_all add: wrapper_finish_def Let_def)
  have r: "run sample_Cron [Register job_x, Finish ''x'' 1000 Returned 1010,
                       Finish ''x'' 2000 (Threw ''boom'') 2030] (new_CronManager 100) =
        wrapper_finish ''x'' 2000 (Threw ''boom'') 2030 ?m1"
    by (simp add: run_def registered_x_def [symmetric] c) (simp add: sample_states)
  have e1: "executions_of ?m1 ''x'' =
      [\<lparr>jobName = ''x'', startTime = 1000, endTime = Some 1010, duration = Some 10,
        success = True, error = None\<rparr>]"
    using wrapper_records_at_completion [of 1000 "registered_x 100" "''x''" Returned 1010]
    by (simp add: sample_states executions_of_def)
  show ?thesis
    unfolding r
    using wrapper_records_at_completion [of 2000 ?m1 "''x''" "Threw ''boom''" 2030]
    by (simp add: e1 k) (simp add: sample_states)
qed

subsection \<open>C9: consistency of the statistics\<close>

text \<open>
  C9: in every manager state, the total of a job's snapshot is the sum of its successful
  and failed runs, and the manager-wide total is the sum of the successful and failed
  executions.
\<close>

theorem stats_consistent:
  "(\<forall>info. getJob m n = Some info \<longrightarrow>
      totalRuns (stats info) = successfulRuns (stats info) + failedRuns (stats info)) \<and>
   totalExecutions (getStats m) = successfulExecutions (getStats m) + failedExecutions (getStats m)"
proof -
  have split: "length xs = length (filter P xs) + length (filter (\<lambda>x. \<not> P x) xs)"
    for P :: "JobExecution \<Rightarrow> bool" and xs
    by (simp add: sum_length_filter_compl)
  have "totalRuns (stats info) = successfulRuns (stats info) + failedRuns (stats info)"
    if "getJob m n = Some info" for info
    using getJob_fields(3,4,5) [OF that] split [of "executions_of m n" success] by simp
  moreover have "totalExecutions (getStats m) =
      successfulExecutions (getStats m) + failedExecutions (getStats m)"
    using split [of "concat (map snd (executions m))" success]
    by (simp add: getStats_def Let_def)
  ultimately show ?thesis by blast
qed

theorem stats_consistent_witness:
  "\<exists>info. getJob (recordAll ''x'' five_runs (registered_x 3)) ''x'' = Some info \<and>
     totalRuns (stats info) = 3 \<and>
     successfulRuns (stats info) + failedRuns (stats info) = 3 \<and>
     totalExecutions (getStats (recordAll ''x'' five_runs (registered_x 3))) = 3 \<and>
     successfulExecutions (getStats (recordAll ''x'' five_runs (registered_x 3))) +
       failedExecutions (getStats (recordAll ''x'' five_runs (registered_x 3))) = 3"
proof -
  let ?m = "recordAll ''x'' five_runs (registered_x 3)"
  have "getJob ?m ''x'' \<noteq> None"
    by (simp add: getJob_None_iff sample_states)
  then obtain info where info: "getJob ?m ''x'' = Some info" by blast
  have inv: "invariant (registered_x 3)"
    by (simp add: sample_states invariant_def job_x_def)
  have "length (executions_of ?m ''x'') = 3"
    using recordAll_history [OF invariant_executions_of(1) [OF inv], of "''x''" five_runs]
    by (simp add: sample_states five_runs_def)
  then have t: "totalRuns (stats info) = 3"
    using getJob_fields(3) [OF info] by simp
  have e: "totalExecutions (getStats ?m) = 3"
    by (simp add: getStats_def Let_def five_runs_def recordExecution_def sample_states
          executions_of_def)
  from stats_consistent [of ?m "''x''"] info t e show ?thesis by simp
qed

subsection \<open>C10: jobs without a runtime\<close>

text \<open>
  C10: after a successful registration with \<open>enabled: false\<close>, and likewise after
  \<open>stop\<close> on a registered job, \<open>trigger\<close>, \<open>pause\<close> and \<open>resume\<close> return false
  and change nothing, while \<open>getJob\<close> still finds the job.
\<close>

theorem no_runtime_controls_fail:
  "(enabled config = Some False \<and> register new_Cron config m = (None, m') \<longrightarrow>
      trigger (name config) now m' = (False, m') \<and>
      pause (name config) m' = (False, m') \<and>
      resume (name config) m' = (False, m') \<and>
      getJob m' (name config) \<noteq> None) \<and>
   (map_of (configs m2) n \<noteq> None \<and> m2' = snd (stop n m2) \<longrightarrow>
      trigger n now m2' = (False, m2') \<and>
      pause n m2' = (False, m2') \<and>
      resume n m2' = (False, m2') \<and>
      getJob m2' n \<noteq> None)"
proof -
  have a: "trigger (name config) now m' = (False, m') \<and>
      pause (name config) m' = (False, m') \<and>
      resume (name config) m' = (False, m') \<and>
      getJob m' (name config) \<noteq> None"
    if "enabled config = Some False" "register new_Cron config m = (None, m')"
  proof -
    have "map_of (jobs m') (name config) = None"
      using register_success(1,4) [OF that(2)] that(1) by simp
    then show ?thesis
      using register_success(2) [OF that(2)]
      by (simp add: no_runtime_controls getJob_None_iff)
  qed
  have b: "trigger n now m2' = (False, m2') \<and>
      pause n m2' = (False, m2') \<and>
      resume n m2' = (False, m2') \<and>
      getJob m2' n \<noteq> None"
    if "map_of (configs m2) n \<noteq> None" "m2' = snd (stop n m2)"
    using that by (simp add: no_runtime_controls getJob_None_iff stop_effect)
  from a b show ?thesis by blast
qed

theorem no_runtime_controls_fail_witness:
  "enabled job_x_disabled = Some False \<and>
   register sample_Cron job_x_disabled (new_CronManager 100) = (None, disabled_x 100) \<and>
   trigger ''x'' 5 (disabled_x 100) = (False, disabled_x 100) \<and>
   pause ''x'' (disabled_x 100) = (False, disabled_x 100) \<and>
   resume ''x'' (disabled_x 100) = (False, disabled_x 100) \<and>
   getJob (disabled_x 100) ''x'' \<noteq> None \<and>
   map_of (configs (registered_x 100)) ''x'' \<noteq> None \<and>
   fst (stop ''x'' (registered_x 100)) = True \<and>
   fst (trigger ''x'' 5 (snd (stop ''x'' (registered_x 100)))) = False \<and>
   fst (pause ''x'' (snd (stop ''x'' (registered_x 100)))) = False \<and>
   fst (resume ''x'' (snd (stop ''x'' (registered_x 100)))) = False \<and>
   getJob (snd (stop ''x'' (registered_x 100))) ''x'' \<noteq> None"
proof -
  have h1: "enabled job_x_disabled = Some False" by (simp add: sample_states)
  have h2: "register sample_Cron job_x_disabled (new_CronManager 100) = (None, disabled_x 100)"
    by (simp add: disabled_x_def register_def new_CronManager_def Let_def h1)
  have h3: "map_of (configs (registered_x 100)) ''x'' \<noteq> None" by (simp add: sample_states)
  have h4: "fst (stop ''x'' (registered_x 100)) = True"
    by (simp add: stop_effect sample_states)
  from no_runtime_controls_fail [of job_x_disabled sample_Cron "new_CronManager 100"
      "disabled_x 100" 5 "registered_x 100" "''x''" "snd (stop ''x'' (registered_x 100))"]
  show ?thesis using h1 h2 h3 h4 by (simp add: sample_states)
qed

end
